theory Spec2Isabelle
  imports Complex_Main "HOL-Library.Multiset"
begin

section \<open>Data model\<close>

text \<open>
  The input file is a sequence of bytes; Python's \<open>bytes\<close> is modelled as a list of
  8-bit characters. Byte positions are Python integers, hence \<open>int\<close>: the tentative end
  of a chunk can be negative when the derived chunk width is negative.
\<close>

type_synonym byte = char
type_synonym path = string

definition newline :: byte where
  "newline = CHR 0x0A"

text \<open>The exceptions that the modelled code can raise.\<close>

datatype error = ZeroDivisionError | OSError | ValueError | EngineError

section \<open>Chunk Planner (\<open>get_file_chunks\<close>, dataloader.py)\<close>

text \<open>
  Lines 79 to 83: after \<open>f.seek(end_pos)\<close> the file is read one byte at a time, the
  position advancing with \<open>end_pos\<close>, until a newline has been consumed or the end of
  the file is reached.
\<close>

function scan_line :: "byte list \<Rightarrow> int \<Rightarrow> int" where
  "scan_line file end_pos =
     (if end_pos < int (length file) then
        (let char = file ! nat end_pos;
             end_pos' = end_pos + 1
         in if char = newline then end_pos' else scan_line file end_pos')
      else end_pos)"
  by pat_completeness auto
termination
  by (relation "measure (\<lambda>(file, end_pos). nat (int (length file) - end_pos))") auto

declare scan_line.simps [simp del]

text \<open>
  Lines 73 to 86, the outer loop. \<open>f.seek\<close> raises on a negative position. With a
  negative chunk width the loop need not advance, so it is a partial function:
  the value \<open>None\<close> stands for a run that never returns.
\<close>

partial_function (option) chunk_loop ::
  "byte list \<Rightarrow> int \<Rightarrow> int \<Rightarrow> (int \<times> int) list \<Rightarrow> (error + (int \<times> int) list) option"
where
  "chunk_loop file chunk_bytes start_pos chunks =
     (if start_pos < int (length file) then
        (let end_pos = min (start_pos + chunk_bytes) (int (length file)) in
         if end_pos < int (length file) then
           (if end_pos < 0 then Some (Inl OSError)
            else (let end_pos' = scan_line file end_pos
                  in chunk_loop file chunk_bytes end_pos' (chunks @ [(start_pos, end_pos')])))
         else chunk_loop file chunk_bytes end_pos (chunks @ [(start_pos, end_pos)]))
      else Some (Inr chunks))"

declare chunk_loop.simps [code]

text \<open>Python's \<open>int(x)\<close> on a float truncates toward zero.\<close>

definition py_int :: "rat \<Rightarrow> int" where
  "py_int x = (if 0 \<le> x then \<lfloor>x\<rfloor> else \<lceil>x\<rceil>)"

text \<open>
  Lines 66 to 68 and 88. The true division raises \<open>ZeroDivisionError\<close> when
  \<open>total_rows\<close> is zero. The double-precision quotient and product are taken as the
  exact rational ones, so neither their rounding nor the overflow of operands beyond
  the range of a double is part of the model. The properties of the loop are shown
  for an arbitrary non-negative chunk width as well, so they do not depend on the
  rounding.
\<close>

definition get_file_chunks ::
  "byte list \<Rightarrow> int \<Rightarrow> int \<Rightarrow> (error + (int \<times> int) list) option"
where
  "get_file_chunks file total_rows chunk_size =
     (let file_size = int (length file) in
      if total_rows = 0 then Some (Inl ZeroDivisionError)
      else (let approx_bytes_per_row = rat_of_int file_size / rat_of_int total_rows;
                chunk_bytes = py_int (approx_bytes_per_row * rat_of_int chunk_size)
            in chunk_loop file chunk_bytes 0 []))"

text \<open>The bytes of a chunk \<open>(start, end)\<close>: the half-open range of the file.\<close>

definition chunk_data :: "byte list \<Rightarrow> int \<times> int \<Rightarrow> byte list" where
  "chunk_data file c = take (nat (snd c - fst c)) (drop (nat (fst c)) file)"

text \<open>
  A chunk list is a chain from \<open>s\<close> to \<open>n\<close> when each chunk starts where its predecessor
  ended, the first starts at \<open>s\<close>, the last ends at \<open>n\<close>, and no chunk is empty.
\<close>

fun chain :: "int \<Rightarrow> (int \<times> int) list \<Rightarrow> int \<Rightarrow> bool" where
  "chain s [] n = (s = n)"
| "chain s (c # cs) n = (fst c = s \<and> s < snd c \<and> chain (snd c) cs n)"

section \<open>The world outside the program\<close>

text \<open>
  The storage engine and the operating system are external. A database file is seen by
  the program only through its size on disk and the number of rows the engine counts in
  its \<open>domains\<close> table; every other file is its bytes.
\<close>

record store =
  store_size :: nat
  store_rows :: nat

datatype fobj = Bytes "byte list" | Database store

datatype write_outcome = Write_ok | Write_fails "byte list option"

text \<open>
  What the engine and the operating system answer. \<open>setup_fails p\<close>: connecting to the
  store at \<open>p\<close> and creating its table raises. \<open>write_outcome p\<close>: writing the scratch
  file succeeds, or raises and leaves either nothing or partial bytes at the path.
  \<open>copy_result data\<close>: bulk-loading a scratch file holding \<open>data\<close> raises (\<open>None\<close>) or
  produces a store. The remaining fields say which statement of the merge raises for
  which store, and in which order the worker pool hands back its results.
\<close>

record env =
  setup_fails :: "path \<Rightarrow> bool"
  empty_store :: store
  write_outcome :: "path \<Rightarrow> write_outcome"
  copy_result :: "byte list \<Rightarrow> store option"
  target_setup_fails :: bool
  attach_fails :: "path \<Rightarrow> bool"
  count_fails :: "path \<Rightarrow> bool"
  insert_fails :: "path \<Rightarrow> bool"
  detach_fails :: "path \<Rightarrow> bool"
  completion_order :: "(nat \<times> (int \<times> int)) list \<Rightarrow> (nat \<times> (int \<times> int)) list"

text \<open>What the program prints when it catches a failure, and the engine calls that succeeded.\<close>

datatype event =
    Chunk_error nat
  | Merging path
  | Attached path
  | Inserted path nat
  | Detached path
  | Removed path
  | Merge_error path

record world =
  files :: "path \<rightharpoonup> fobj"
  printed :: "event list"

definition say :: "event \<Rightarrow> world \<Rightarrow> world" where
  "say e w = w\<lparr>printed := printed w @ [e]\<rparr>"

text \<open>
  \<open>os.path.join\<close> for a second component that is not absolute, which is the case for
  the two names built from the chunk id.
\<close>

definition os_path_join :: "path \<Rightarrow> path \<Rightarrow> path" where
  "os_path_join a b = (if a = [] \<or> last a = CHR ''/'' then a @ b else a @ ''/'' @ b)"

text \<open>The decimal rendering of the chunk id in the two f-strings.\<close>

definition digit :: "nat \<Rightarrow> char" where
  "digit d = ''0123456789'' ! d"

fun str_nat :: "nat \<Rightarrow> string" where
  "str_nat n = (if n < 10 then [digit n] else str_nat (n div 10) @ [digit (n mod 10)])"

declare str_nat.simps [simp del]

definition temp_db_path_of :: "path \<Rightarrow> nat \<Rightarrow> path" where
  "temp_db_path_of temp_dir chunk_id = os_path_join temp_dir (''chunk_'' @ str_nat chunk_id @ ''.duckdb'')"

definition temp_file_of :: "path \<Rightarrow> nat \<Rightarrow> path" where
  "temp_file_of temp_dir chunk_id = os_path_join temp_dir (''chunk_'' @ str_nat chunk_id @ ''.csv'')"

section \<open>Chunk Loader (\<open>process_chunk\<close>, dataloader.py)\<close>

text \<open>
  Lines 128 to 130: open the input, seek, read. Opening a missing file and seeking to a
  negative position raise; a negative length reads to the end of the file; reading past
  the end returns fewer bytes.
\<close>

definition read_range :: "(path \<rightharpoonup> fobj) \<Rightarrow> path \<Rightarrow> int \<Rightarrow> int \<Rightarrow> error + byte list" where
  "read_range fs file_path start_pos end_pos =
     (case fs file_path of
        Some (Bytes content) \<Rightarrow>
          if start_pos < 0 then Inl OSError
          else (let rest = drop (nat start_pos) content;
                    n = end_pos - start_pos
                in Inr (if n < 0 then rest else take (nat n) rest))
      | _ \<Rightarrow> Inl OSError)"

text \<open>Lines 133 to 135. \<open>data[-1:]\<close> is the last byte as a slice, empty for empty data.\<close>

definition count_rows :: "byte list \<Rightarrow> nat" where
  "count_rows data =
     (let rows_in_chunk = count_list data newline
      in if drop (length data - 1) data \<noteq> [newline] then rows_in_chunk + 1 else rows_in_chunk)"

text \<open>
  Lines 126 to 142, the body of the \<open>try\<close>: the result is the row count, or the
  exception that the \<open>except\<close> clause will catch, with the files as they are then.
\<close>

definition load_attempt ::
  "env \<Rightarrow> world \<Rightarrow> path \<Rightarrow> int \<Rightarrow> int \<Rightarrow> path \<Rightarrow> path \<Rightarrow> (error + nat) \<times> world"
where
  "load_attempt env w file_path start_pos end_pos temp_file temp_db_path =
     (case read_range (files w) file_path start_pos end_pos of
        Inl e \<Rightarrow> (Inl e, w)
      | Inr data \<Rightarrow>
          (let rows_in_chunk = count_rows data in
           case write_outcome env temp_file of
             Write_fails left \<Rightarrow>
               (Inl OSError,
                (case left of
                   None \<Rightarrow> w
                 | Some part \<Rightarrow> w\<lparr>files := (files w)(temp_file \<mapsto> Bytes part)\<rparr>))
           | Write_ok \<Rightarrow>
               (let w2 = w\<lparr>files := (files w)(temp_file \<mapsto> Bytes data)\<rparr> in
                case copy_result env data of
                  None \<Rightarrow> (Inl EngineError, w2)
                | Some st \<Rightarrow>
                    (Inr rows_in_chunk,
                     w2\<lparr>files := (files w2)(temp_db_path \<mapsto> Database st)\<rparr>))))"

text \<open>
  Lines 90 to 155. Connecting and creating the table (lines 99 to 115) are outside the
  \<open>try\<close>: a failure there leaves the function as an exception. Afterwards every path
  runs the \<open>finally\<close> clause, whose \<open>os.remove\<close> either deletes the scratch file or
  raises because there is none, which is ignored.
\<close>

definition process_chunk ::
  "env \<Rightarrow> world \<Rightarrow> nat \<times> (int \<times> int) \<Rightarrow> path \<Rightarrow> path \<Rightarrow> error + ((nat \<times> path) \<times> world)"
where
  "process_chunk env w chunk_info file_path temp_dir =
     (let chunk_id = fst chunk_info;
          start_pos = fst (snd chunk_info);
          end_pos = snd (snd chunk_info);
          temp_db_path = temp_db_path_of temp_dir chunk_id
      in if setup_fails env temp_db_path then Inl EngineError
         else
           (let w1 = w\<lparr>files := (files w)(temp_db_path \<mapsto> Database (empty_store env))\<rparr>;
                temp_file = temp_file_of temp_dir chunk_id;
                attempt = load_attempt env w1 file_path start_pos end_pos temp_file temp_db_path;
                rows_in_chunk = (case fst attempt of Inl e \<Rightarrow> 0 | Inr rows \<Rightarrow> rows);
                w2 = (case fst attempt of
                        Inl e \<Rightarrow> say (Chunk_error chunk_id) (snd attempt)
                      | Inr rows \<Rightarrow> snd attempt);
                w3 = w2\<lparr>files := (files w2)(temp_file := None)\<rparr>
            in Inr ((rows_in_chunk, temp_db_path), w3)))"

section \<open>Store Merger (\<open>merge_temp_databases\<close>, dataloader.py)\<close>

definition getsize :: "fobj \<Rightarrow> nat" where
  "getsize f = (case f of Bytes content \<Rightarrow> length content | Database st \<Rightarrow> store_size st)"

text \<open>
  Lines 181 to 207, one iteration of the loop. The state is the running total and the
  world. A file that is not a database cannot be attached. Each statement that raises
  ends the iteration in the \<open>except\<close> clause, which prints and goes on.
\<close>

definition merge_one :: "env \<Rightarrow> nat \<times> world \<Rightarrow> path \<Rightarrow> nat \<times> world" where
  "merge_one env acc temp_db =
     (let total_rows = fst acc; w = snd acc in
      case files w temp_db of
        None \<Rightarrow> acc
      | Some f \<Rightarrow>
          if getsize f < 1000 then acc
          else
            (let w1 = say (Merging temp_db) w in
             case f of
               Bytes content \<Rightarrow> (total_rows, say (Merge_error temp_db) w1)
             | Database st \<Rightarrow>
                 if attach_fails env temp_db then (total_rows, say (Merge_error temp_db) w1)
                 else
                   (let w2 = say (Attached temp_db) w1 in
                    if count_fails env temp_db then (total_rows, say (Merge_error temp_db) w2)
                    else
                      (let rows_to_add = store_rows st in
                       if insert_fails env temp_db then (total_rows, say (Merge_error temp_db) w2)
                       else
                         (let w3 = say (Inserted temp_db rows_to_add) w2;
                              total_rows' = total_rows + rows_to_add
                          in if detach_fails env temp_db
                             then (total_rows', say (Merge_error temp_db) w3)
                             else
                               (let w4 = say (Detached temp_db) w3;
                                    w5 = say (Removed temp_db) (w4\<lparr>files := (files w4)(temp_db := None)\<rparr>)
                                in (total_rows', w5)))))))"

fun merge_loop :: "env \<Rightarrow> nat \<times> world \<Rightarrow> path list \<Rightarrow> nat \<times> world" where
  "merge_loop env acc [] = acc"
| "merge_loop env acc (temp_db # rest) = merge_loop env (merge_one env acc temp_db) rest"

text \<open>Lines 157 to 210. Opening the target and creating its table are outside the \<open>try\<close>.\<close>

definition merge_temp_databases :: "env \<Rightarrow> world \<Rightarrow> path list \<Rightarrow> error + (nat \<times> world)" where
  "merge_temp_databases env w temp_dbs =
     (if target_setup_fails env then Inl EngineError
      else Inr (merge_loop env (0, w) temp_dbs))"

section \<open>The chunked branch of \<open>main\<close> (dataloader.py)\<close>



text \<open>
  Lines 254 and 266 to 299: the expected row count is the constant of line 254. A pool
  of fewer than one worker cannot be created. The result is \<open>rows_processed\<close>, the
  \<open>rows_loaded\<close> that the merge returns, and the world afterwards.
\<close>

definition total_rows_const :: int where
  "total_rows_const = 217038672"



section \<open>Index Builder (\<open>create_single_index\<close>, faster\_indexing.py)\<close>



section \<open>Concrete environments\<close>

text \<open>
  An engine on which nothing fails: a bulk load yields a store of three blocks of 4096
  bytes that holds one row per line of the scratch file. The pool hands its results
  back in reverse order of submission.
\<close>

definition plain_env :: env where
  "plain_env =
     \<lparr>setup_fails = (\<lambda>p. False),
      empty_store = \<lparr>store_size = 12288, store_rows = 0\<rparr>,
      write_outcome = (\<lambda>p. Write_ok),
      copy_result = (\<lambda>data. Some \<lparr>store_size = 12288, store_rows = count_rows data\<rparr>),
      target_setup_fails = False,
      attach_fails = (\<lambda>p. False),
      count_fails = (\<lambda>p. False),
      insert_fails = (\<lambda>p. False),
      detach_fails = (\<lambda>p. False),
      completion_order = rev\<rparr>"

text \<open>An engine whose bulk load always raises.\<close>

definition copy_raises_env :: env where
  "copy_raises_env = plain_env\<lparr>copy_result := (\<lambda>data. None)\<rparr>"



definition world_with :: "path \<Rightarrow> byte list \<Rightarrow> world" where
  "world_with file_path content = \<lparr>files = [file_path \<mapsto> Bytes content], printed = []\<rparr>"




section \<open>Predicates and inputs used in the statements\<close>

text \<open>Every chunk but the last ends just after a newline byte of the file.\<close>

definition row_safe :: "byte list \<Rightarrow> (int \<times> int) list \<Rightarrow> bool" where
  "row_safe bs cs = (\<forall>c \<in> set (butlast cs). bs ! nat (snd c - 1) = newline)"

text \<open>A small input file: three lines, the last one without a newline.\<close>

definition three_lines :: "byte list" where
  "three_lines = ''ab'' @ [newline] @ ''cd'' @ [newline] @ ''ef''"

text \<open>An input of one record.\<close>

definition one_row :: "byte list" where
  "one_row = ''a;b'' @ [newline]"

text \<open>Worlds in which the store of chunk 0 is on disk, below and above the size threshold.\<close>

definition small_store_world :: world where
  "small_store_world =
     \<lparr>files = [''tmp/chunk_0.duckdb'' \<mapsto> Database \<lparr>store_size = 500, store_rows = 3\<rparr>],
      printed = []\<rparr>"


text \<open>The first component of a successful result.\<close>

definition returned :: "error + ('a \<times> world) \<Rightarrow> error + 'a" where
  "returned r = map_sum id fst r"


section \<open>Properties of the Chunk Planner\<close>

lemma scan_line_step:
  "e < int (length bs) \<Longrightarrow>
   scan_line bs e = (if bs ! nat e = newline then e + 1 else scan_line bs (e + 1))"
  by (subst scan_line.simps) (simp add: Let_def)

lemma scan_line_end: "\<not> e < int (length bs) \<Longrightarrow> scan_line bs e = e"
  by (subst scan_line.simps) simp

lemma scan_line_bounds:
  "0 \<le> e \<Longrightarrow> e < int (length bs) \<Longrightarrow>
   e < scan_line bs e \<and> scan_line bs e \<le> int (length bs)"
proof (induction bs e rule: scan_line.induct)
  case (1 bs end_pos)
  show ?case
  proof (cases "bs ! nat end_pos = newline \<or> \<not> end_pos + 1 < int (length bs)")
    case True
    with "1.prems" show ?thesis
      by (auto simp: scan_line_step [of end_pos bs] scan_line_end [of "end_pos + 1" bs])
  next
    case False
    with "1.prems" "1.IH" [OF _ refl refl]
    have "end_pos + 1 < scan_line bs (end_pos + 1) \<and>
          scan_line bs (end_pos + 1) \<le> int (length bs)"
      by auto
    with False "1.prems" show ?thesis
      by (auto simp: scan_line_step [of end_pos bs])
  qed
qed

lemma scan_line_newline:
  "0 \<le> e \<Longrightarrow> e < int (length bs) \<Longrightarrow> scan_line bs e < int (length bs) \<Longrightarrow>
   bs ! nat (scan_line bs e - 1) = newline"
proof (induction bs e rule: scan_line.induct)
  case (1 bs end_pos)
  show ?case
  proof (cases "bs ! nat end_pos = newline")
    case True
    with "1.prems" show ?thesis
      by (simp add: scan_line_step [of end_pos bs])
  next
    case False
    have eq: "scan_line bs end_pos = scan_line bs (end_pos + 1)"
      using False "1.prems" by (simp add: scan_line_step [of end_pos bs])
    show ?thesis
    proof (cases "end_pos + 1 < int (length bs)")
      case True
      with "1.IH" [OF _ refl refl] False "1.prems" eq show ?thesis by auto
    next
      case past: False
      then have "scan_line bs (end_pos + 1) = end_pos + 1"
        by (rule scan_line_end)
      with eq "1.prems" past show ?thesis by auto
    qed
  qed
qed

lemma chain_le: "chain s cs n \<Longrightarrow> s \<le> n"
proof (induction cs arbitrary: s)
  case Nil
  then show ?case by simp
next
  case (Cons d ds)
  then have "snd d \<le> n" by simp
  with Cons.prems show ?case by simp
qed

lemma chain_bounds:
  "chain s cs n \<Longrightarrow> c \<in> set cs \<Longrightarrow> s \<le> fst c \<and> fst c < snd c \<and> snd c \<le> n"
proof (induction cs arbitrary: s)
  case Nil
  then show ?case by simp
next
  case (Cons d ds)
  show ?case
  proof (cases "c = d")
    case True
    with Cons.prems chain_le [of "snd d" ds n] show ?thesis by auto
  next
    case False
    with Cons.prems Cons.IH [of "snd d"] show ?thesis by auto
  qed
qed







lemma row_safe_Cons:
  "row_safe bs (c # cs) = (cs = [] \<or> (bs ! nat (snd c - 1) = newline \<and> row_safe bs cs))"
  by (auto simp: row_safe_def)

lemma row_safe_nth:
  assumes "row_safe bs cs" and "Suc i < length cs"
  shows "bs ! nat (snd (cs ! i) - 1) = newline"
proof -
  have "cs ! i = butlast cs ! i" using assms(2) by (simp add: nth_butlast)
  then have "cs ! i \<in> set (butlast cs)" using assms(2) by simp
  with assms(1) show ?thesis by (simp add: row_safe_def)
qed

text \<open>
  The loop, started anywhere in the file with a non-negative chunk width: it returns,
  and what it appends is a chain from the start to the end of the file.
\<close>

lemma chunk_loop_total:
  assumes cb: "0 \<le> cb"
  shows "0 \<le> s \<Longrightarrow> s \<le> int (length bs) \<Longrightarrow>
         \<exists>cs. chunk_loop bs cb s acc = Some (Inr (acc @ cs)) \<and>
              chain s cs (int (length bs)) \<and> row_safe bs cs"
proof (induction "nat (int (length bs) - s)" arbitrary: s acc rule: less_induct)
  case less
  let ?n = "int (length bs)"
  show ?case
  proof (cases "s < ?n")
    case False
    with less.prems have "s = ?n" by simp
    then have "chunk_loop bs cb s acc = Some (Inr (acc @ []))"
      by (subst chunk_loop.simps) simp
    moreover have "chain s [] ?n" using \<open>s = ?n\<close> by simp
    moreover have "row_safe bs []" by (simp add: row_safe_def)
    ultimately show ?thesis by blast
  next
    case True
    define e0 where "e0 = min (s + cb) ?n"
    define e where "e = (if e0 < ?n then scan_line bs e0 else e0)"
    have e0: "s \<le> e0" "e0 \<le> ?n" "0 \<le> e0"
      using cb True less.prems by (auto simp: e0_def)
    have e: "s < e" "e \<le> ?n" "e < ?n \<longrightarrow> bs ! nat (e - 1) = newline"
      using e0 True scan_line_bounds [of e0 bs] scan_line_newline [of e0 bs]
      by (auto simp: e_def)
    have step: "chunk_loop bs cb s acc = chunk_loop bs cb e (acc @ [(s, e)])"
      using True e0 by (subst chunk_loop.simps) (auto simp: Let_def e_def e0_def)
    have "nat (?n - e) < nat (?n - s)" using e True by linarith
    from less.hyps [OF this, of "acc @ [(s, e)]"] e less.prems
    obtain cs where cs:
      "chunk_loop bs cb e (acc @ [(s, e)]) = Some (Inr ((acc @ [(s, e)]) @ cs))"
      "chain e cs ?n" "row_safe bs cs"
      by auto
    have "chunk_loop bs cb s acc = Some (Inr (acc @ ((s, e) # cs)))"
      using step cs(1) by simp
    moreover have "chain s ((s, e) # cs) ?n" using e cs(2) by simp
    moreover have "row_safe bs ((s, e) # cs)"
    proof (cases cs)
      case Nil
      then show ?thesis by (simp add: row_safe_Cons)
    next
      case (Cons d ds)
      have "e \<noteq> ?n"
      proof
        assume "e = ?n"
        with cs(2) Cons have "?n < snd d" "chain (snd d) ds ?n" by auto
        then show False using chain_le [of "snd d" ds ?n] by simp
      qed
      with e cs(3) show ?thesis by (simp add: row_safe_Cons)
    qed
    ultimately show ?thesis by blast
  qed
qed

text \<open>With a negative chunk width the first \<open>seek\<close> raises, unless the file is empty.\<close>

lemma chunk_loop_negative:
  "cb < 0 \<Longrightarrow>
   chunk_loop bs cb 0 [] = (if bs = [] then Some (Inr []) else Some (Inl OSError))"
  by (subst chunk_loop.simps) (auto simp: Let_def)

lemma py_int_nonneg: "0 \<le> x \<Longrightarrow> 0 \<le> py_int x"
  by (simp add: py_int_def)

lemma get_file_chunks_loop:
  "total_rows \<noteq> 0 \<Longrightarrow>
   \<exists>cb. get_file_chunks bs total_rows chunk_size = chunk_loop bs cb 0 [] \<and>
        (0 < total_rows \<and> 0 < chunk_size \<longrightarrow> 0 \<le> cb)"
  by (rule exI [of _ "py_int (rat_of_int (int (length bs)) / rat_of_int total_rows
                              * rat_of_int chunk_size)"])
     (simp add: get_file_chunks_def Let_def py_int_nonneg)

lemma get_file_chunks_chain:
  assumes "get_file_chunks bs total_rows chunk_size = Some (Inr cs)"
  shows "chain 0 cs (int (length bs)) \<and> row_safe bs cs"
proof -
  have nz: "total_rows \<noteq> 0"
    using assms by (auto simp: get_file_chunks_def Let_def)
  from get_file_chunks_loop [OF nz, of bs chunk_size] obtain cb
    where cb: "get_file_chunks bs total_rows chunk_size = chunk_loop bs cb 0 []"
    by blast
  show ?thesis
  proof (cases "0 \<le> cb")
    case True
    from chunk_loop_total [OF True, of 0 bs "[]"] obtain ds
      where "chunk_loop bs cb 0 [] = Some (Inr ds)" "chain 0 ds (int (length bs))" "row_safe bs ds"
      by auto
    with assms cb show ?thesis by simp
  next
    case False
    then have "chunk_loop bs cb 0 [] = (if bs = [] then Some (Inr []) else Some (Inl OSError))"
      by (simp add: chunk_loop_negative)
    with assms cb have "bs = [] \<and> cs = []" by (auto split: if_splits)
    then show ?thesis by (simp add: row_safe_def)
  qed
qed


lemma three_lines_chunks:
  "get_file_chunks three_lines 3 1 = Some (Inr [(0, 3), (3, 6), (6, 8)])"
  by code_simp

lemma three_lines_chunks_zero_width:
  "get_file_chunks three_lines 10 1 = Some (Inr [(0, 3), (3, 6), (6, 8)])"
  by code_simp



text \<open>
  C2. For every chunk list that the planner returns and every chunk in it except the
  last, the end offset lies inside the file and the byte just before it is a newline;
  the bytes of such a chunk are not empty and end with a newline, so that no record
  continues in the next chunk. The byte before the end of a chunk that is not the last
  is a newline as well in the chunk list that the loop builds with any chunk width
  that is not negative.
\<close>

theorem non_final_chunk_ends_after_newline:
  assumes "get_file_chunks file total_rows chunk_size = Some (Inr chunks)"
    and "Suc i < length chunks"
  shows "0 < snd (chunks ! i) \<and> snd (chunks ! i) \<le> int (length file) \<and>
         file ! nat (snd (chunks ! i) - 1) = newline \<and>
         chunk_data file (chunks ! i) \<noteq> [] \<and>
         last (chunk_data file (chunks ! i)) = newline \<and>
         (0 \<le> cb \<and> chunk_loop file cb 0 [] = Some (Inr cs) \<and> Suc j < length cs \<longrightarrow>
            file ! nat (snd (cs ! j) - 1) = newline)"
proof -
  let ?c = "chunks ! i"
  from get_file_chunks_chain [OF assms(1)]
  have ch: "chain 0 chunks (int (length file))" and rs: "row_safe file chunks"
    by simp_all
  have "?c \<in> set chunks" using assms(2) by simp
  from chain_bounds [OF ch this]
  have b: "0 \<le> fst ?c" "fst ?c < snd ?c" "snd ?c \<le> int (length file)"
    by simp_all
  have nl: "file ! nat (snd ?c - 1) = newline"
    using rs assms(2) by (rule row_safe_nth)
  have any_width: "file ! nat (snd (cs ! j) - 1) = newline"
    if "0 \<le> cb" "chunk_loop file cb 0 [] = Some (Inr cs)" "Suc j < length cs"
  proof -
    from chunk_loop_total [OF that(1), of 0 "file" "[]"] that(2)
    have "row_safe file cs" by auto
    then show ?thesis using that(3) by (rule row_safe_nth)
  qed
  define k where "k = nat (snd ?c - fst ?c)"
  define rest where "rest = drop (nat (fst ?c)) file"
  have k: "0 < k" "k \<le> length rest" using b by (simp_all add: k_def rest_def)
  have data: "chunk_data file ?c = take k rest"
    by (simp add: chunk_data_def k_def rest_def)
  have ne: "chunk_data file ?c \<noteq> []" using k data by auto
  have "take k rest \<noteq> []" using k by auto
  then have "last (take k rest) = take k rest ! (length (take k rest) - 1)"
    by (rule last_conv_nth)
  also have "\<dots> = rest ! (k - 1)"
    using k by simp
  also have "\<dots> = file ! (nat (fst ?c) + (k - 1))"
    using k by (simp add: rest_def)
  also have "nat (fst ?c) + (k - 1) = nat (snd ?c - 1)"
    using b by (simp add: k_def)
  finally have "last (chunk_data file ?c) = newline" using nl data by simp
  with b nl ne any_width show ?thesis by simp
qed

theorem non_final_chunk_ends_after_newline_witness:
  "get_file_chunks three_lines 3 1 = Some (Inr [(0, 3), (3, 6), (6, 8)]) \<and>
   Suc 0 < length ([(0, 3), (3, 6), (6, 8)] :: (int \<times> int) list) \<and>
   three_lines ! nat (snd (([(0, 3), (3, 6), (6, 8)] :: (int \<times> int) list) ! 0) - 1) = newline \<and>
   last (chunk_data three_lines (([(0, 3), (3, 6), (6, 8)] :: (int \<times> int) list) ! 0)) = newline"
proof -
  have len: "Suc 0 < length ([(0, 3), (3, 6), (6, 8)] :: (int \<times> int) list)" by simp
  from non_final_chunk_ends_after_newline [OF three_lines_chunks len] three_lines_chunks len
  show ?thesis by blast
qed

text \<open>
  C4, as the code has it. The code has no configuration error and checks nothing: an
  expected row count of zero makes the division of line 67 raise \<open>ZeroDivisionError\<close>,
  for every file and every target rows per chunk, before any chunk is produced.
  A negative expected row count is not rejected: on the one-byte file \<open>a\<close> with an
  expected row count of -2 the planner returns the chunk list \<open>[(0, 1)]\<close>.
\<close>

theorem zero_row_count_raises:
  "get_file_chunks file 0 chunk_size = Some (Inl ZeroDivisionError)"
  by (simp add: get_file_chunks_def)

text \<open>
  The claim as it stands, that the planner fails for every expected row count that is not
  positive, does not hold: here the row count is negative and a chunk list is returned.
\<close>

theorem negative_row_count_accepted:
  "get_file_chunks ''a'' (- 2) 1 = Some (Inr [(0, 1)])"
  by code_simp



section \<open>Properties of the Chunk Loader\<close>

lemma last_slice: "(drop (length xs - 1) xs = [c]) = (xs \<noteq> [] \<and> last xs = c)"
  by (cases xs rule: rev_cases) auto

lemma count_rows_eq:
  "count_rows data =
     count_list data newline + (if data \<noteq> [] \<and> last data = newline then 0 else 1)"
  using last_slice [of data newline]
  by (auto simp: count_rows_def Let_def)

lemma count_rows_pos: "0 < count_rows data"
proof (cases "data \<noteq> [] \<and> last data = newline")
  case True
  then have "newline \<in> set data" using last_in_set [of data] by auto
  then have "count_list data newline \<noteq> 0" by (simp add: count_list_0_iff)
  then show ?thesis by (simp add: count_rows_eq)
next
  case False
  then show ?thesis by (auto simp: count_rows_eq)
qed

lemma read_range_chunk:
  "fs file_path = Some (Bytes content) \<Longrightarrow> 0 \<le> start_pos \<Longrightarrow> start_pos \<le> end_pos \<Longrightarrow>
   read_range fs file_path start_pos end_pos = Inr (chunk_data content (start_pos, end_pos))"
  by (simp add: read_range_def chunk_data_def Let_def)

text \<open>What \<open>process_chunk\<close> returns, by the outcome of the \<open>try\<close> block.\<close>

lemma process_chunk_cases:
  fixes env :: env and w :: world and temp_dir file_path :: path
    and chunk_id :: nat and start_pos end_pos :: int
  assumes "\<not> setup_fails env (temp_db_path_of temp_dir chunk_id)"
  defines "w1 \<equiv> w\<lparr>files := (files w)(temp_db_path_of temp_dir chunk_id \<mapsto> Database (empty_store env))\<rparr>"
  defines "attempt \<equiv> load_attempt env w1 file_path start_pos end_pos
                       (temp_file_of temp_dir chunk_id) (temp_db_path_of temp_dir chunk_id)"
  shows "process_chunk env w (chunk_id, (start_pos, end_pos)) file_path temp_dir =
           Inr (((case fst attempt of Inl e \<Rightarrow> 0 | Inr rows \<Rightarrow> rows),
                 temp_db_path_of temp_dir chunk_id),
                (case fst attempt of
                   Inl e \<Rightarrow> say (Chunk_error chunk_id) (snd attempt)
                 | Inr rows \<Rightarrow> snd attempt)
                \<lparr>files := (files (snd attempt))(temp_file_of temp_dir chunk_id := None)\<rparr>)"
  using assms(1) unfolding w1_def attempt_def
  by (cases "fst (load_attempt env
        (w\<lparr>files := (files w)(temp_db_path_of temp_dir chunk_id \<mapsto> Database (empty_store env))\<rparr>)
        file_path start_pos end_pos
        (temp_file_of temp_dir chunk_id) (temp_db_path_of temp_dir chunk_id))")
     (simp_all add: process_chunk_def Let_def say_def)



lemma load_attempt_ok:
  "read_range (files w) file_path start_pos end_pos = Inr data \<Longrightarrow>
   write_outcome env temp_file = Write_ok \<Longrightarrow> copy_result env data = Some st \<Longrightarrow>
   fst (load_attempt env w file_path start_pos end_pos temp_file temp_db_path) = Inr (count_rows data)"
  by (simp add: load_attempt_def Let_def)


text \<open>
  C5, as the code has it. When the byte range is read and the scratch write and the bulk
  load succeed as well, the loader returns the number of newline bytes in the chunk's
  bytes, plus one unless the bytes end with a newline (so plus one for empty bytes too).
  Reading alone does not suffice: when a later step raises, the count is replaced by 0.
\<close>

theorem loader_row_count:
  assumes "files w file_path = Some (Bytes content)"
    and "file_path \<noteq> temp_db_path_of temp_dir chunk_id"
    and "0 \<le> start_pos" and "start_pos \<le> end_pos"
    and "\<not> setup_fails env (temp_db_path_of temp_dir chunk_id)"
    and "write_outcome env (temp_file_of temp_dir chunk_id) = Write_ok"
    and "copy_result env (chunk_data content (start_pos, end_pos)) = Some st"
  shows "returned (process_chunk env w (chunk_id, (start_pos, end_pos)) file_path temp_dir) =
           Inr (count_list (chunk_data content (start_pos, end_pos)) newline +
                  (if chunk_data content (start_pos, end_pos) \<noteq> [] \<and>
                      last (chunk_data content (start_pos, end_pos)) = newline
                   then 0 else 1),
                temp_db_path_of temp_dir chunk_id)"
proof -
  let ?db = "temp_db_path_of temp_dir chunk_id"
  let ?w1 = "w\<lparr>files := (files w)(?db \<mapsto> Database (empty_store env))\<rparr>"
  let ?data = "chunk_data content (start_pos, end_pos)"
  have "files ?w1 file_path = Some (Bytes content)"
    using assms(1,2) by simp
  then have "read_range (files ?w1) file_path start_pos end_pos = Inr ?data"
    using assms(3,4) by (rule read_range_chunk)
  then have "fst (load_attempt env ?w1 file_path start_pos end_pos
                    (temp_file_of temp_dir chunk_id) ?db) = Inr (count_rows ?data)"
    using assms(6,7) by (rule load_attempt_ok)
  then show ?thesis
    by (simp add: process_chunk_cases [OF assms(5)] returned_def count_rows_eq)
qed

theorem loader_row_count_witness:
  "files (world_with ''in.csv'' one_row) ''in.csv'' = Some (Bytes one_row) \<and>
   ''in.csv'' \<noteq> temp_db_path_of ''tmp'' 0 \<and>
   \<not> setup_fails plain_env (temp_db_path_of ''tmp'' 0) \<and>
   write_outcome plain_env (temp_file_of ''tmp'' 0) = Write_ok \<and>
   copy_result plain_env (chunk_data one_row (0, 4)) = Some \<lparr>store_size = 12288, store_rows = 1\<rparr> \<and>
   returned (process_chunk plain_env (world_with ''in.csv'' one_row) (0, (0, 4)) ''in.csv'' ''tmp'') =
     Inr (1, ''tmp/chunk_0.duckdb'')"
proof -
  have a: "files (world_with ''in.csv'' one_row) ''in.csv'' = Some (Bytes one_row)"
    by (simp add: world_with_def)
  have b: "''in.csv'' \<noteq> temp_db_path_of ''tmp'' 0" by code_simp
  have c: "(0::int) \<le> 0" "(0::int) \<le> 4" by simp_all
  have d: "\<not> setup_fails plain_env (temp_db_path_of ''tmp'' 0)"
    by (simp add: plain_env_def)
  have e: "write_outcome plain_env (temp_file_of ''tmp'' 0) = Write_ok"
    by (simp add: plain_env_def)
  have f: "copy_result plain_env (chunk_data one_row (0, 4)) = Some \<lparr>store_size = 12288, store_rows = 1\<rparr>"
    by code_simp
  have g: "count_list (chunk_data one_row (0, 4)) newline +
             (if chunk_data one_row (0, 4) \<noteq> [] \<and> last (chunk_data one_row (0, 4)) = newline
              then 0 else 1) = (1::nat)"
    by code_simp
  have h: "temp_db_path_of ''tmp'' 0 = ''tmp/chunk_0.duckdb''" by code_simp
  from loader_row_count [OF a b c d e f] a b d e f show ?thesis
    by (simp only: g h simp_thms)
qed

text \<open>
  The claim as it stands does not hold: the four bytes of the chunk are read, they hold
  one newline and end with it, the bulk load raises, and the loader returns 0 rows.
\<close>

theorem loader_count_lost_when_copy_raises:
  "read_range (files (world_with ''in.csv'' one_row)) ''in.csv'' 0 4 = Inr one_row \<and>
   count_list one_row newline = 1 \<and> last one_row = newline \<and>
   returned (process_chunk copy_raises_env (world_with ''in.csv'' one_row) (0, (0, 4)) ''in.csv'' ''tmp'') =
     Inr (0, ''tmp/chunk_0.duckdb'')"
  by code_simp




section \<open>Properties of the Store Merger\<close>

lemma merge_loop_append:
  "merge_loop env acc (xs @ ys) = merge_loop env (merge_loop env acc xs) ys"
  by (induction xs arbitrary: acc) auto

lemma merge_one_skip:
  "files (snd acc) p = None \<or> (\<exists>f. files (snd acc) p = Some f \<and> getsize f < 1000) \<Longrightarrow>
   merge_one env acc p = acc"
  by (auto simp: merge_one_def Let_def)

text \<open>
  C7. When the merger reaches a store whose file is missing, or smaller than 1000 bytes,
  the iteration changes nothing: the running total, the files and what has been printed
  are as before, so the store is neither attached nor merged, none of its rows is
  counted, and no error is raised or printed. The whole merge gives the same result as
  without that store in the list.
\<close>

theorem merger_skips_missing_or_small:
  assumes "files (snd (merge_loop env (0, w) before)) p = None \<or>
           (\<exists>f. files (snd (merge_loop env (0, w) before)) p = Some f \<and> getsize f < 1000)"
  shows "merge_one env (merge_loop env (0, w) before) p = merge_loop env (0, w) before \<and>
         merge_temp_databases env w (before @ p # rest) = merge_temp_databases env w (before @ rest)"
proof -
  have skip: "merge_one env (merge_loop env (0, w) before) p = merge_loop env (0, w) before"
    using assms by (rule merge_one_skip)
  then have "merge_loop env (0, w) (before @ p # rest) = merge_loop env (0, w) (before @ rest)"
    by (simp add: merge_loop_append)
  with skip show ?thesis by (simp add: merge_temp_databases_def)
qed

theorem merger_skips_missing_or_small_witness:
  "(\<exists>f. files (snd (merge_loop plain_env (0, small_store_world) [])) ''tmp/chunk_0.duckdb'' = Some f \<and>
        getsize f < 1000) \<and>
   merge_one plain_env (merge_loop plain_env (0, small_store_world) []) ''tmp/chunk_0.duckdb'' =
     (0, small_store_world) \<and>
   merge_temp_databases plain_env small_store_world ([] @ ''tmp/chunk_0.duckdb'' # []) =
     Inr (0, small_store_world)"
proof -
  have small:
    "\<exists>f. files (snd (merge_loop plain_env (0, small_store_world) [])) ''tmp/chunk_0.duckdb'' = Some f \<and>
         getsize f < 1000"
    by (simp add: small_store_world_def getsize_def)
  then have "files (snd (merge_loop plain_env (0, small_store_world) [])) ''tmp/chunk_0.duckdb'' = None \<or>
    (\<exists>f. files (snd (merge_loop plain_env (0, small_store_world) [])) ''tmp/chunk_0.duckdb'' = Some f \<and>
         getsize f < 1000)"
    by blast
  from merger_skips_missing_or_small [OF this, of "[]"] small show ?thesis
    by (simp add: merge_temp_databases_def plain_env_def)
qed



section \<open>Properties of the Index Builder\<close>




section \<open>Properties of the chunked pipeline\<close>

subsection \<open>The file names of different chunks are different\<close>









subsection \<open>What a loader call leaves behind\<close>








subsection \<open>What the merge adds up\<close>






subsection \<open>Row counts of a run\<close>




lemma three_lines_chunks_main:
  "get_file_chunks three_lines total_rows_const 1 = Some (Inr [(0, 3), (3, 6), (6, 8)])"
  by code_simp






end
